theory Spec2Isabelle
  imports Main "HOL-Library.Word"
begin

section \<open>JavaScript strings\<close>

text \<open>
  A JavaScript string is a sequence of 16-bit code units. The prompt and the request body
  are kept in this form, since what \<open>JSON.stringify\<close> escapes is decided code unit by
  code unit (control characters, quotes, unpaired surrogates). The string literals of the
  source (\<open>"prompt"\<close>, the punctuation of JSON) are ASCII; \<open>lit\<close> reads them as code units.
\<close>

type_synonym code_unit = "16 word"
type_synonym jsstring = "code_unit list"

definition lit :: "string \<Rightarrow> jsstring" where
  "lit s = map of_char s"

definition is_leading_surrogate :: "code_unit \<Rightarrow> bool" where
  "is_leading_surrogate c = (0xD800 \<le> c \<and> c \<le> 0xDBFF)"

definition is_trailing_surrogate :: "code_unit \<Rightarrow> bool" where
  "is_trailing_surrogate c = (0xDC00 \<le> c \<and> c \<le> 0xDFFF)"

text \<open>
  ECMA-262, UTF16SurrogatePairToCodePoint and UTF16EncodeCodePoint. A code point is a
  natural number up to \<open>0x10FFFF\<close>.
\<close>

definition UTF16SurrogatePairToCodePoint :: "code_unit \<Rightarrow> code_unit \<Rightarrow> nat" where
  "UTF16SurrogatePairToCodePoint lead trail =
     (unat lead - 0xD800) * 0x400 + (unat trail - 0xDC00) + 0x10000"

definition UTF16EncodeCodePoint :: "nat \<Rightarrow> jsstring" where
  "UTF16EncodeCodePoint cp =
     (if cp \<le> 0xFFFF then [of_nat cp]
      else [of_nat ((cp - 0x10000) div 0x400 + 0xD800),
            of_nat ((cp - 0x10000) mod 0x400 + 0xDC00)])"

text \<open>
  ECMA-262, StringToCodePoints with CodePointAt: a leading surrogate followed by a
  trailing one is one code point; any other code unit, an unpaired surrogate included,
  is a code point of its own.
\<close>

fun StringToCodePoints :: "jsstring \<Rightarrow> nat list" where
  "StringToCodePoints [] = []"
| "StringToCodePoints [c] = [unat c]"
| "StringToCodePoints (c # d # cs) =
     (if is_leading_surrogate c \<and> is_trailing_surrogate d
      then UTF16SurrogatePairToCodePoint c d # StringToCodePoints cs
      else unat c # StringToCodePoints (d # cs))"

section \<open>JSON.stringify\<close>

text \<open>
  ECMA-262 (2019 and later, where \<open>JSON.stringify\<close> is well formed), QuoteJSONString:
  the seven code points of the escape table get their two-character escape, every other
  code point below \<open>0x20\<close> and every unpaired surrogate gets \<open>\uXXXX\<close> in lowercase
  hexadecimal, and everything else is copied.
\<close>

definition hex_digit :: "nat \<Rightarrow> code_unit" where
  "hex_digit n = (if n < 10 then of_nat (0x30 + n) else of_nat (0x61 + (n - 10)))"

definition UnicodeEscape :: "nat \<Rightarrow> jsstring" where
  "UnicodeEscape n =
     [0x5C, 0x75, hex_digit (n div 0x1000 mod 0x10), hex_digit (n div 0x100 mod 0x10),
      hex_digit (n div 0x10 mod 0x10), hex_digit (n mod 0x10)]"

definition quote_code_point :: "nat \<Rightarrow> jsstring" where
  "quote_code_point cp =
     (if cp = 0x08 then [0x5C, 0x62]
      else if cp = 0x09 then [0x5C, 0x74]
      else if cp = 0x0A then [0x5C, 0x6E]
      else if cp = 0x0C then [0x5C, 0x66]
      else if cp = 0x0D then [0x5C, 0x72]
      else if cp = 0x22 then [0x5C, 0x22]
      else if cp = 0x5C then [0x5C, 0x5C]
      else if cp < 0x20 \<or> (0xD800 \<le> cp \<and> cp \<le> 0xDFFF) then UnicodeEscape cp
      else UTF16EncodeCodePoint cp)"

definition QuoteJSONString :: "jsstring \<Rightarrow> jsstring" where
  "QuoteJSONString s =
     [0x22] @ concat (map quote_code_point (StringToCodePoints s)) @ [0x22]"

text \<open>
  The values \<open>JSON.stringify\<close> is given. Numbers are left out: their text is
  Number::toString, which is floating point, and the source serialises none. A datatype
  value is a finite tree, so the cyclic objects on which \<open>JSON.stringify\<close> throws do not
  arise. An object is the list of its enumerable own properties, in enumeration order.
\<close>

datatype jsvalue =
    VUndefined
  | VNull
  | VBool bool
  | VBigInt int
  | VString jsstring
  | VArray "jsvalue list"
  | VObject "(jsstring \<times> jsvalue) list"

text \<open>
  What the operation can throw: \<open>NetworkError\<close> is the TypeError with which \<open>fetch\<close>
  (or the reading of a response body) rejects, carrying the message of the network stack;
  \<open>StringifyError\<close> is the TypeError of \<open>JSON.stringify\<close>; \<open>SyntaxError\<close> is that of
  \<open>JSON.parse\<close>.
\<close>

datatype failure = NetworkError string | StringifyError | SyntaxError

fun join_comma :: "jsstring list \<Rightarrow> jsstring" where
  "join_comma [] = []"
| "join_comma [x] = x"
| "join_comma (x # y # ys) = x @ [0x2C] @ join_comma (y # ys)"

text \<open>
  ECMA-262, SerializeJSONProperty, SerializeJSONArray and SerializeJSONObject, with no
  replacer and an empty gap (the source passes neither). The result \<open>None\<close> is
  JavaScript's \<open>undefined\<close>: an undefined property is left out of an object and is
  \<open>null\<close> in an array; a BigInt throws.
\<close>

fun SerializeJSONProperty :: "jsvalue \<Rightarrow> failure + jsstring option"
  and SerializeJSONArray :: "jsvalue list \<Rightarrow> failure + jsstring list"
  and SerializeJSONObject :: "(jsstring \<times> jsvalue) list \<Rightarrow> failure + jsstring list"
where
  "SerializeJSONProperty VUndefined = Inr None"
| "SerializeJSONProperty VNull = Inr (Some (lit ''null''))"
| "SerializeJSONProperty (VBool b) = Inr (Some (if b then lit ''true'' else lit ''false''))"
| "SerializeJSONProperty (VBigInt n) = Inl StringifyError"
| "SerializeJSONProperty (VString s) = Inr (Some (QuoteJSONString s))"
| "SerializeJSONProperty (VArray vs) =
     (case SerializeJSONArray vs of
        Inl e \<Rightarrow> Inl e
      | Inr partial \<Rightarrow> Inr (Some ([0x5B] @ join_comma partial @ [0x5D])))"
| "SerializeJSONProperty (VObject ms) =
     (case SerializeJSONObject ms of
        Inl e \<Rightarrow> Inl e
      | Inr partial \<Rightarrow> Inr (Some ([0x7B] @ join_comma partial @ [0x7D])))"
| "SerializeJSONArray [] = Inr []"
| "SerializeJSONArray (v # vs) =
     (case SerializeJSONProperty v of
        Inl e \<Rightarrow> Inl e
      | Inr strP \<Rightarrow>
          (case SerializeJSONArray vs of
             Inl e \<Rightarrow> Inl e
           | Inr partial \<Rightarrow>
               Inr ((case strP of None \<Rightarrow> lit ''null'' | Some s \<Rightarrow> s) # partial)))"
| "SerializeJSONObject [] = Inr []"
| "SerializeJSONObject ((k, v) # ms) =
     (case SerializeJSONProperty v of
        Inl e \<Rightarrow> Inl e
      | Inr strP \<Rightarrow>
          (case SerializeJSONObject ms of
             Inl e \<Rightarrow> Inl e
           | Inr partial \<Rightarrow>
               Inr ((case strP of
                       None \<Rightarrow> []
                     | Some s \<Rightarrow> [QuoteJSONString k @ [0x3A] @ s]) @ partial)))"

definition JSON_stringify :: "jsvalue \<Rightarrow> failure + jsstring option" where
  "JSON_stringify v = SerializeJSONProperty v"

section \<open>JSON.parse\<close>

text \<open>
  The values \<open>JSON.parse\<close> returns. A number is kept as the text of its literal (its
  rounding to an IEEE double is not modelled). An object is the list of its members in
  creation order, with distinct keys.
\<close>

datatype json =
    JNull
  | JBool bool
  | JNumber jsstring
  | JString jsstring
  | JArray "json list"
  | JObject "(jsstring \<times> json) list"

datatype token =
    LBrace | RBrace | LBracket | RBracket | Colon | Comma
  | TString jsstring | TNumber jsstring | TTrue | TFalse | TNull

text \<open>JSON white space: tab, line feed, carriage return and space, and nothing else.\<close>

definition is_ws :: "code_unit \<Rightarrow> bool" where
  "is_ws c = (c = 0x09 \<or> c = 0x0A \<or> c = 0x0D \<or> c = 0x20)"

definition is_digit :: "code_unit \<Rightarrow> bool" where
  "is_digit c = (0x30 \<le> c \<and> c \<le> 0x39)"

definition hex_value :: "code_unit \<Rightarrow> nat option" where
  "hex_value c =
     (if 0x30 \<le> c \<and> c \<le> 0x39 then Some (unat c - 0x30)
      else if 0x61 \<le> c \<and> c \<le> 0x66 then Some (unat c - 0x61 + 10)
      else if 0x41 \<le> c \<and> c \<le> 0x46 then Some (unat c - 0x41 + 10)
      else None)"

definition hex4 :: "code_unit \<Rightarrow> code_unit \<Rightarrow> code_unit \<Rightarrow> code_unit \<Rightarrow> code_unit option" where
  "hex4 h1 h2 h3 h4 =
     (case (hex_value h1, hex_value h2, hex_value h3, hex_value h4) of
        (Some a, Some b, Some c, Some d) \<Rightarrow> Some (of_nat (a * 0x1000 + b * 0x100 + c * 0x10 + d))
      | _ \<Rightarrow> None)"

text \<open>The character after a backslash, \<open>u\<close> apart: \<open>" \ / b f n r t\<close>.\<close>

definition single_escape :: "code_unit \<Rightarrow> code_unit option" where
  "single_escape e =
     (if e = 0x22 then Some 0x22
      else if e = 0x5C then Some 0x5C
      else if e = 0x2F then Some 0x2F
      else if e = 0x62 then Some 0x08
      else if e = 0x66 then Some 0x0C
      else if e = 0x6E then Some 0x0A
      else if e = 0x72 then Some 0x0D
      else if e = 0x74 then Some 0x09
      else None)"

text \<open>
  A string, read from just after its opening quote: the value and the input left after
  the closing quote. A raw code unit below \<open>0x20\<close>, a bad escape and a missing closing
  quote are errors.
\<close>

fun lex_string :: "jsstring \<Rightarrow> (jsstring \<times> jsstring) option" where
  "lex_string [] = None"
| "lex_string (c # cs) =
     (if c = 0x22 then Some ([], cs)
      else if c = 0x5C then
        (case cs of
           [] \<Rightarrow> None
         | e # r \<Rightarrow>
             if e = 0x75 then
               (case r of
                  h1 # h2 # h3 # h4 # r' \<Rightarrow>
                    (case hex4 h1 h2 h3 h4 of
                       None \<Rightarrow> None
                     | Some u \<Rightarrow>
                         (case lex_string r' of
                            None \<Rightarrow> None
                          | Some (s, rest) \<Rightarrow> Some (u # s, rest)))
                | _ \<Rightarrow> None)
             else
               (case single_escape e of
                  None \<Rightarrow> None
                | Some u \<Rightarrow>
                    (case lex_string r of
                       None \<Rightarrow> None
                     | Some (s, rest) \<Rightarrow> Some (u # s, rest))))
      else if c < 0x20 then None
      else
        (case lex_string cs of
           None \<Rightarrow> None
         | Some (s, rest) \<Rightarrow> Some (c # s, rest)))"

text \<open>
  A number: an optional minus, an integer part (\<open>0\<close>, or a non-zero digit and more
  digits), an optional fraction and an optional exponent, each with at least one digit.
\<close>

definition lex_int :: "jsstring \<Rightarrow> (jsstring \<times> jsstring) option" where
  "lex_int cs =
     (case cs of
        [] \<Rightarrow> None
      | c # r \<Rightarrow>
          if c = 0x30 then Some ([c], r)
          else if 0x31 \<le> c \<and> c \<le> 0x39
          then Some (c # takeWhile is_digit r, dropWhile is_digit r)
          else None)"

definition lex_digits1 :: "jsstring \<Rightarrow> (jsstring \<times> jsstring) option" where
  "lex_digits1 cs =
     (if takeWhile is_digit cs = [] then None
      else Some (takeWhile is_digit cs, dropWhile is_digit cs))"

definition lex_frac :: "jsstring \<Rightarrow> (jsstring \<times> jsstring) option" where
  "lex_frac cs =
     (case cs of
        [] \<Rightarrow> Some ([], [])
      | c # r \<Rightarrow>
          if c = 0x2E then
            (case lex_digits1 r of
               None \<Rightarrow> None
             | Some (ds, rest) \<Rightarrow> Some (c # ds, rest))
          else Some ([], cs))"

definition lex_sign :: "jsstring \<Rightarrow> jsstring \<times> jsstring" where
  "lex_sign cs =
     (case cs of
        [] \<Rightarrow> ([], [])
      | c # r \<Rightarrow> if c = 0x2B \<or> c = 0x2D then ([c], r) else ([], cs))"

definition lex_exp :: "jsstring \<Rightarrow> (jsstring \<times> jsstring) option" where
  "lex_exp cs =
     (case cs of
        [] \<Rightarrow> Some ([], [])
      | c # r \<Rightarrow>
          if c = 0x65 \<or> c = 0x45 then
            (case lex_digits1 (snd (lex_sign r)) of
               None \<Rightarrow> None
             | Some (ds, rest) \<Rightarrow> Some (c # fst (lex_sign r) @ ds, rest))
          else Some ([], cs))"

definition lex_minus :: "jsstring \<Rightarrow> jsstring \<times> jsstring" where
  "lex_minus cs =
     (case cs of
        [] \<Rightarrow> ([], [])
      | c # r \<Rightarrow> if c = 0x2D then ([c], r) else ([], cs))"

definition lex_number :: "jsstring \<Rightarrow> (jsstring \<times> jsstring) option" where
  "lex_number cs =
     (case lex_int (snd (lex_minus cs)) of
        None \<Rightarrow> None
      | Some (i, r1) \<Rightarrow>
          (case lex_frac r1 of
             None \<Rightarrow> None
           | Some (f, r2) \<Rightarrow>
               (case lex_exp r2 of
                  None \<Rightarrow> None
                | Some (e, r3) \<Rightarrow> Some (fst (lex_minus cs) @ i @ f @ e, r3))))"

text \<open>The three literal names, in lower case only.\<close>

definition lex_word :: "jsstring \<Rightarrow> (token \<times> jsstring) option" where
  "lex_word cs =
     (if take 4 cs = lit ''true'' then Some (TTrue, drop 4 cs)
      else if take 5 cs = lit ''false'' then Some (TFalse, drop 5 cs)
      else if take 4 cs = lit ''null'' then Some (TNull, drop 4 cs)
      else None)"

text \<open>
  The tokens of a text: white space is skipped between tokens, and a code unit that begins
  no token is an error.
\<close>

function tokenize :: "jsstring \<Rightarrow> token list option" where
  "tokenize [] = Some []"
| "tokenize (c # cs) =
     (if is_ws c then tokenize cs
      else if c = 0x7B then map_option ((#) LBrace) (tokenize cs)
      else if c = 0x7D then map_option ((#) RBrace) (tokenize cs)
      else if c = 0x5B then map_option ((#) LBracket) (tokenize cs)
      else if c = 0x5D then map_option ((#) RBracket) (tokenize cs)
      else if c = 0x3A then map_option ((#) Colon) (tokenize cs)
      else if c = 0x2C then map_option ((#) Comma) (tokenize cs)
      else if c = 0x22 then
        (case lex_string cs of
           None \<Rightarrow> None
         | Some (s, rest) \<Rightarrow> map_option ((#) (TString s)) (tokenize rest))
      else if c = 0x2D \<or> is_digit c then
        (case lex_number (c # cs) of
           None \<Rightarrow> None
         | Some (n, rest) \<Rightarrow> map_option ((#) (TNumber n)) (tokenize rest))
      else
        (case lex_word (c # cs) of
           None \<Rightarrow> None
         | Some (t, rest) \<Rightarrow> map_option ((#) t) (tokenize rest)))"
  by pat_completeness auto
termination
proof -
  have str: "length rest < length cs" if "lex_string cs = Some (s, rest)" for cs s rest
    using that
  proof (induction cs arbitrary: s rule: lex_string.induct)
    case 1
    then show ?case by simp
  next
    case (2 c cs)
    show ?case
      using "2.prems" "2.IH"
      by (simp split: if_splits list.splits option.splits prod.splits) force+
  qed
  have dig: "length rest \<le> length cs" if "lex_digits1 cs = Some (n, rest)" for cs n rest
    using that by (auto simp: lex_digits1_def length_dropWhile_le split: if_splits)
  have int: "length rest < length cs" if "lex_int cs = Some (n, rest)" for cs n rest
    using that
    by (auto simp: lex_int_def length_dropWhile_le less_Suc_eq_le split: if_splits list.splits)
  have frac: "length rest \<le> length cs" if "lex_frac cs = Some (n, rest)" for cs n rest
    using that
    by (auto simp: lex_frac_def split: if_splits list.splits option.splits dest!: dig)
  have sign: "length (snd (lex_sign cs)) \<le> length cs" for cs
    by (auto simp: lex_sign_def split: list.splits)
  have minus: "length (snd (lex_minus cs)) \<le> length cs" for cs
    by (auto simp: lex_minus_def split: list.splits)
  have exp: "length rest \<le> length cs" if "lex_exp cs = Some (n, rest)" for cs n rest
    using that sign
    by (auto simp: lex_exp_def split: if_splits list.splits option.splits dest!: dig)
       (meson le_SucI le_trans)+
  have num: "length rest < length cs" if "lex_number cs = Some (n, rest)" for cs n rest
    using that minus [of cs]
    by (auto simp: lex_number_def split: option.splits dest!: int frac exp)
  have word: "length rest < length (c # cs)" if "lex_word (c # cs) = Some (t, rest)"
    for c cs t rest
    using that by (auto simp: lex_word_def split: if_splits)
  show ?thesis
    by (relation "measure length") (auto dest: str num word)
qed

text \<open>
  The JSON grammar over tokens, as a stack machine that reads one token at a time: a
  frame is an array or an object whose next element is being read. A second member with
  a key already present replaces the value and keeps the place of the first, as
  CreateDataProperty does.
\<close>

fun put_member :: "jsstring \<Rightarrow> json \<Rightarrow> (jsstring \<times> json) list \<Rightarrow> (jsstring \<times> json) list" where
  "put_member k v [] = [(k, v)]"
| "put_member k v ((k', v') # ms) =
     (if k' = k then (k, v) # ms else (k', v') # put_member k v ms)"

datatype frame = ArrayFrame "json list" | ObjectFrame "(jsstring \<times> json) list" jsstring

datatype pstate =
    NeedValue
  | ArrayStart
  | ArrayNext "json list"
  | ObjectStart
  | ObjectKey "(jsstring \<times> json) list"
  | ObjectColon "(jsstring \<times> json) list" jsstring
  | ObjectNext "(jsstring \<times> json) list"
  | Done json

fun complete :: "json \<Rightarrow> frame list \<Rightarrow> pstate \<times> frame list" where
  "complete v [] = (Done v, [])"
| "complete v (ArrayFrame vs # st) = (ArrayNext (vs @ [v]), st)"
| "complete v (ObjectFrame ms k # st) = (ObjectNext (put_member k v ms), st)"

fun begin_value :: "token \<Rightarrow> frame list \<Rightarrow> (pstate \<times> frame list) option" where
  "begin_value TNull st = Some (complete JNull st)"
| "begin_value TTrue st = Some (complete (JBool True) st)"
| "begin_value TFalse st = Some (complete (JBool False) st)"
| "begin_value (TNumber n) st = Some (complete (JNumber n) st)"
| "begin_value (TString s) st = Some (complete (JString s) st)"
| "begin_value LBracket st = Some (ArrayStart, st)"
| "begin_value LBrace st = Some (ObjectStart, st)"
| "begin_value _ st = None"

fun parse_step :: "pstate \<Rightarrow> frame list \<Rightarrow> token \<Rightarrow> (pstate \<times> frame list) option" where
  "parse_step NeedValue st t = begin_value t st"
| "parse_step ArrayStart st t =
     (if t = RBracket then Some (complete (JArray []) st)
      else begin_value t (ArrayFrame [] # st))"
| "parse_step (ArrayNext vs) st t =
     (if t = Comma then Some (NeedValue, ArrayFrame vs # st)
      else if t = RBracket then Some (complete (JArray vs) st)
      else None)"
| "parse_step ObjectStart st t =
     (case t of
        RBrace \<Rightarrow> Some (complete (JObject []) st)
      | TString k \<Rightarrow> Some (ObjectColon [] k, st)
      | _ \<Rightarrow> None)"
| "parse_step (ObjectKey ms) st t =
     (case t of
        TString k \<Rightarrow> Some (ObjectColon ms k, st)
      | _ \<Rightarrow> None)"
| "parse_step (ObjectColon ms k) st t =
     (if t = Colon then Some (NeedValue, ObjectFrame ms k # st) else None)"
| "parse_step (ObjectNext ms) st t =
     (if t = Comma then Some (ObjectKey ms, st)
      else if t = RBrace then Some (complete (JObject ms) st)
      else None)"
| "parse_step (Done v) st t = None"

fun parse_tokens :: "pstate \<Rightarrow> frame list \<Rightarrow> token list \<Rightarrow> json option" where
  "parse_tokens s st [] = (case s of Done v \<Rightarrow> Some v | _ \<Rightarrow> None)"
| "parse_tokens s st (t # ts) =
     (case parse_step s st t of
        None \<Rightarrow> None
      | Some (s', st') \<Rightarrow> parse_tokens s' st' ts)"

definition JSON_parse :: "jsstring \<Rightarrow> failure + json" where
  "JSON_parse text =
     (case tokenize text of
        None \<Rightarrow> Inl SyntaxError
      | Some ts \<Rightarrow>
          (case parse_tokens NeedValue [] ts of
             None \<Rightarrow> Inl SyntaxError
           | Some v \<Rightarrow> Inr v))"


section \<open>The network\<close>

text \<open>
  The second argument of \<open>fetch\<close> as the source writes it: method, headers and body; the
  first argument is the URL. A body that is \<open>undefined\<close> is \<open>None\<close>.
\<close>

record request =
  url :: string
  "method" :: string
  headers :: "(string \<times> string) list"
  body :: "jsstring option"

text \<open>
  A response of the server. The body is what reading it to the end gives: its text (the
  bytes decoded as UTF-8, as \<open>Response.json\<close> does before it parses), or the message of
  the network error that interrupted the reading.
\<close>

record response =
  status :: nat
  response_headers :: "(string \<times> string) list"
  response_body :: "string + jsstring"

text \<open>
  The network and the server are the environment: from the HTTP requests sent so far and
  the request at hand, either the message of a network error (server unreachable,
  connection refused, DNS failure, timeout) or the response to that one request. The
  state of the world is the list of the HTTP requests sent, oldest first.
\<close>

type_synonym network = "request list \<Rightarrow> request \<Rightarrow> string + response"

text \<open>
  The source passes no \<open>redirect\<close> option, so \<open>fetch\<close> runs in its default mode
  \<open>follow\<close>. Fetch standard, redirect status, location URL and HTTP-redirect fetch: a
  response with status 301, 302, 303, 307 or 308 and a \<open>Location\<close> header is not handed to
  the caller; the request is sent again to the location. After 301 or 302 a POST, and
  after 303 every method but GET and HEAD, becomes a GET without body and without the
  request-body headers; after 307 and 308 the method and the body are kept. After 20
  redirects the next one is a network error. Header names compare without case. The value
  of \<open>Location\<close> stands for the absolute URL it resolves to (resolving a relative
  reference, and the checks of the scheme and of CORS, are not modelled).
\<close>

definition is_redirect_status :: "nat \<Rightarrow> bool" where
  "is_redirect_status st = (st = 301 \<or> st = 302 \<or> st = 303 \<or> st = 307 \<or> st = 308)"

definition ascii_lower :: "char \<Rightarrow> char" where
  "ascii_lower c =
     (case map_of (zip ''ABCDEFGHIJKLMNOPQRSTUVWXYZ'' ''abcdefghijklmnopqrstuvwxyz'') c of
        None \<Rightarrow> c
      | Some l \<Rightarrow> l)"

definition same_header_name :: "string \<Rightarrow> string \<Rightarrow> bool" where
  "same_header_name a b = (map ascii_lower a = map ascii_lower b)"

fun get_header :: "string \<Rightarrow> (string \<times> string) list \<Rightarrow> string option" where
  "get_header name [] = None"
| "get_header name ((k, v) # hs) =
     (if same_header_name k name then Some v else get_header name hs)"

definition location_URL :: "response \<Rightarrow> string option" where
  "location_URL res =
     (if is_redirect_status (status res) then get_header ''Location'' (response_headers res)
      else None)"

definition request_body_header_name :: "string \<Rightarrow> bool" where
  "request_body_header_name k =
     (same_header_name k ''Content-Encoding'' \<or> same_header_name k ''Content-Language'' \<or>
      same_header_name k ''Content-Location'' \<or> same_header_name k ''Content-Type'')"

definition to_GET :: "request \<Rightarrow> string \<Rightarrow> request" where
  "to_GET req loc =
     \<lparr>url = loc, method = ''GET'',
      headers = filter (\<lambda>(k, v). \<not> request_body_header_name k) (headers req),
      body = None\<rparr>"

definition redirect_request :: "request \<Rightarrow> nat \<Rightarrow> string \<Rightarrow> request" where
  "redirect_request req st loc =
     (if st = 303 then
        (if method req = ''GET'' \<or> method req = ''HEAD'' then req\<lparr>url := loc\<rparr>
         else to_GET req loc)
      else if (st = 301 \<or> st = 302) \<and> method req = ''POST'' then to_GET req loc
      else req\<lparr>url := loc\<rparr>)"

text \<open>
  One call of \<open>fetch\<close>, with the number of redirects it may still follow: every HTTP
  request it sends is added to the list, and it ends with the network error or with the
  first response that is not a redirect to follow.
\<close>

fun http_fetch ::
  "nat \<Rightarrow> network \<Rightarrow> request \<Rightarrow> request list \<Rightarrow> (failure + response) \<times> request list" where
  "http_fetch 0 net req issued =
     (case net issued req of
        Inl msg \<Rightarrow> (Inl (NetworkError msg), issued @ [req])
      | Inr res \<Rightarrow>
          (case location_URL res of
             None \<Rightarrow> (Inr res, issued @ [req])
           | Some loc \<Rightarrow> (Inl (NetworkError ''redirect count exceeded''), issued @ [req])))"
| "http_fetch (Suc n) net req issued =
     (case net issued req of
        Inl msg \<Rightarrow> (Inl (NetworkError msg), issued @ [req])
      | Inr res \<Rightarrow>
          (case location_URL res of
             None \<Rightarrow> (Inr res, issued @ [req])
           | Some loc \<Rightarrow>
               http_fetch n net (redirect_request req (status res) loc) (issued @ [req])))"

definition fetch ::
  "network \<Rightarrow> request \<Rightarrow> request list \<Rightarrow> (failure + response) \<times> request list" where
  "fetch net req issued = http_fetch 20 net req issued"

definition Response_json :: "response \<Rightarrow> failure + json" where
  "Response_json res =
     (case response_body res of
        Inl msg \<Rightarrow> Inl (NetworkError msg)
      | Inr text \<Rightarrow> JSON_parse text)"

text \<open>
  Two servers for the examples: one answers every request with status 200 and the body
  \<open>{"ok": true}\<close>; the other answers the URL of the agent with a 307 redirect to
  \<open>/agent2\<close>, and everything else as the first does.
\<close>

definition ok_server :: network where
  \<open>ok_server issued req =
     Inr \<lparr>status = 200, response_headers = [], response_body = Inr (lit ''{"ok": true}'')\<rparr>\<close>

definition redirecting_server :: network where
  \<open>redirecting_server issued req =
     (if url req = ''http://localhost:8001/agent''
      then Inr \<lparr>status = 307,
                response_headers = [(''location'', ''http://localhost:8001/agent2'')],
                response_body = Inr []\<rparr>
      else ok_server issued req)\<close>

section \<open>The agent client\<close>

text \<open>
  \<^verbatim>\<open>
  export async function askAgent(prompt: string) {
    const res = await fetch("http://localhost:8001/agent", {
      method: "POST",
      headers: { "Content-Type": "application/json" },
      body: JSON.stringify({ prompt })
    });
    return await res.json();
  }
  \<close>
  An exception of \<open>JSON.stringify\<close>, a rejection of \<open>fetch\<close> and a rejection of
  \<open>res.json()\<close> each end the call with that failure; nothing is caught.
\<close>

definition askAgent ::
  "network \<Rightarrow> jsstring \<Rightarrow> request list \<Rightarrow> (failure + json) \<times> request list" where
  "askAgent net prompt issued =
     (case JSON_stringify (VObject [(lit ''prompt'', VString prompt)]) of
        Inl e \<Rightarrow> (Inl e, issued)
      | Inr b \<Rightarrow>
          (case fetch net
                  \<lparr>url = ''http://localhost:8001/agent'',
                   method = ''POST'',
                   headers = [(''Content-Type'', ''application/json'')],
                   body = b\<rparr>
                  issued of
             (Inl e, issued') \<Rightarrow> (Inl e, issued')
           | (Inr res, issued') \<Rightarrow> (Response_json res, issued')))"

section \<open>Reading back what QuoteJSONString wrote\<close>

lemma hex_value_hex_digit: "d < 16 \<Longrightarrow> hex_value (hex_digit d) = Some d"
proof -
  have "\<forall>d \<in> set [0..<16::nat]. hex_value (hex_digit d) = Some d"
    by (simp add: upt_rec hex_value_def hex_digit_def)
  then show "d < 16 \<Longrightarrow> hex_value (hex_digit d) = Some d"
    by simp
qed

lemma hex_digits_sum:
  "(n div 0x1000 mod 0x10) * 0x1000 + (n div 0x100 mod 0x10) * 0x100 + (n div 0x10 mod 0x10) * 0x10
     + n mod 0x10 = (n::nat) mod 0x10000"
proof -
  have a: "n div 0x1000 = n div 0x100 div 0x10" "n div 0x100 = n div 0x10 div 0x10"
    by (simp_all add: div_mult2_eq)
  have m: "x mod 0x10000 = x mod 0x10 + 0x10 * (x div 0x10 mod 0x1000)" for x :: nat
    using mod_mult2_eq [of x "0x10" "0x1000"] by simp
  have m2: "x mod 0x1000 = x mod 0x10 + 0x10 * (x div 0x10 mod 0x100)" for x :: nat
    using mod_mult2_eq [of x "0x10" "0x100"] by simp
  have m3: "x mod 0x100 = x mod 0x10 + 0x10 * (x div 0x10 mod 0x10)" for x :: nat
    using mod_mult2_eq [of x "0x10" "0x10"] by simp
  show ?thesis
    unfolding m [of n] m2 [of "n div 0x10"] m3 [of "n div 0x10 div 0x10"] a
    by simp
qed

lemma hex4_hex_digits:
  "a < 16 \<Longrightarrow> b < 16 \<Longrightarrow> c < 16 \<Longrightarrow> d < 16 \<Longrightarrow>
   hex4 (hex_digit a) (hex_digit b) (hex_digit c) (hex_digit d) =
     Some (of_nat (a * 0x1000 + b * 0x100 + c * 0x10 + d))"
  by (simp add: hex4_def hex_value_hex_digit)

lemma hex4_UnicodeEscape:
  "hex4 (hex_digit (unat c div 0x1000 mod 0x10)) (hex_digit (unat c div 0x100 mod 0x10))
        (hex_digit (unat c div 0x10 mod 0x10)) (hex_digit (unat c mod 0x10)) = Some (c :: code_unit)"
proof -
  have "unat c < 0x10000"
    using unsigned_less [of c, where ?'a = nat] by simp
  then have "unat c mod 0x10000 = unat c"
    by simp
  then have "(unat c div 0x1000 mod 0x10) * 0x1000 + (unat c div 0x100 mod 0x10) * 0x100
      + (unat c div 0x10 mod 0x10) * 0x10 + unat c mod 0x10 = unat c"
    using hex_digits_sum [of "unat c"] by simp
  then show ?thesis
    by (simp only: hex4_hex_digits mod_less_divisor zero_less_numeral of_nat_unat ucast_id)
qed

lemma lex_string_UnicodeEscape:
  "lex_string (UnicodeEscape (unat c) @ xs) =
     (case lex_string xs of None \<Rightarrow> None | Some (s, rest) \<Rightarrow> Some (c # s, rest))"
  by (simp add: UnicodeEscape_def hex4_UnicodeEscape)

lemma lex_string_quote_unit:
  "lex_string (quote_code_point (unat c) @ xs) =
     (case lex_string xs of None \<Rightarrow> None | Some (s, rest) \<Rightarrow> Some (c # s, rest))"
proof -
  have u: "unat c \<le> 0xFFFF"
    using unsigned_less [of c, where ?'a = nat] by simp
  have esc: "lex_string ([0x5C, e] @ xs) =
      (case lex_string xs of None \<Rightarrow> None | Some (s, rest) \<Rightarrow> Some (c # s, rest))"
    if "e \<noteq> 0x75" "single_escape e = Some c" for e
    using that by simp
  consider (tab) "unat c \<in> {0x08, 0x09, 0x0A, 0x0C, 0x0D, 0x22, 0x5C}"
    | (uni) "unat c \<notin> {0x08, 0x09, 0x0A, 0x0C, 0x0D, 0x22, 0x5C}"
        "unat c < 0x20 \<or> (0xD800 \<le> unat c \<and> unat c \<le> 0xDFFF)"
    | (raw) "unat c \<notin> {0x08, 0x09, 0x0A, 0x0C, 0x0D, 0x22, 0x5C}"
        "\<not> (unat c < 0x20 \<or> (0xD800 \<le> unat c \<and> unat c \<le> 0xDFFF))"
    by blast
  then show ?thesis
  proof cases
    case tab
    then show ?thesis
      by (auto simp add: quote_code_point_def single_escape_def word_unat_eq_iff
               split: option.splits)
  next
    case uni
    then show ?thesis
      by (simp add: quote_code_point_def lex_string_UnicodeEscape)
  next
    case raw
    then have "c \<noteq> 0x22" "c \<noteq> 0x5C" "\<not> c < 0x20"
      by (auto simp add: word_unat_eq_iff word_less_nat_alt)
    with raw u show ?thesis
      by (auto simp add: quote_code_point_def UTF16EncodeCodePoint_def)
  qed
qed


lemma quote_surrogate_pair:
  assumes "is_leading_surrogate c" "is_trailing_surrogate d"
  shows "quote_code_point (UTF16SurrogatePairToCodePoint c d) = [c, d]"
proof -
  define a b where "a = unat c - 0xD800" and "b = unat d - 0xDC00"
  have c: "unat c = a + 0xD800" and a: "a < 0x400"
    using assms(1) by (auto simp: a_def b_def is_leading_surrogate_def word_le_nat_alt)
  have d: "unat d = b + 0xDC00" and b: "b < 0x400"
    using assms(2) by (auto simp: a_def b_def is_trailing_surrogate_def word_le_nat_alt)
  have cp: "UTF16SurrogatePairToCodePoint c d = a * 0x400 + b + 0x10000"
    by (simp add: UTF16SurrogatePairToCodePoint_def a_def b_def)
  have "of_nat (a + 0xD800) = c" "of_nat (b + 0xDC00) = d"
    using c [symmetric] d [symmetric] by (simp_all only: of_nat_unat ucast_id)
  then show ?thesis
    using a b by (simp add: cp quote_code_point_def UTF16EncodeCodePoint_def)
qed

lemma lex_string_surrogate_pair:
  assumes "is_leading_surrogate c" "is_trailing_surrogate d"
  shows "lex_string (c # d # xs) =
     (case lex_string xs of None \<Rightarrow> None | Some (s, rest) \<Rightarrow> Some (c # d # s, rest))"
proof -
  have "c \<noteq> 0x22" "c \<noteq> 0x5C" "\<not> c < 0x20"
    using assms(1) by (auto simp: is_leading_surrogate_def word_le_nat_alt word_less_nat_alt)
  moreover have "d \<noteq> 0x22" "d \<noteq> 0x5C" "\<not> d < 0x20"
    using assms(2) by (auto simp: is_trailing_surrogate_def word_le_nat_alt word_less_nat_alt)
  ultimately show ?thesis
    by (simp split: option.splits)
qed

lemma lex_string_quoted:
  "lex_string (concat (map quote_code_point (StringToCodePoints s)) @ 0x22 # rest) = Some (s, rest)"
proof (induction s rule: StringToCodePoints.induct)
  case 1
  show ?case by simp
next
  case (2 c)
  show ?case
    using lex_string_quote_unit [of c "0x22 # rest"] by simp
next
  case (3 c d cs)
  show ?case
  proof (cases "is_leading_surrogate c \<and> is_trailing_surrogate d")
    case True
    then show ?thesis
      using "3.IH"(1) lex_string_surrogate_pair [of c d]
      by (simp add: quote_surrogate_pair del: lex_string.simps)
  next
    case False
    then show ?thesis
      using "3.IH"(2) lex_string_quote_unit [of c]
      by (auto simp del: lex_string.simps)
  qed
qed

lemma tokenize_QuoteJSONString:
  "tokenize (QuoteJSONString s @ rest) = map_option ((#) (TString s)) (tokenize rest)"
  by (simp add: QuoteJSONString_def is_ws_def lex_string_quoted del: lex_string.simps)

lemma JSON_stringify_prompt:
  "JSON_stringify (VObject [(k, VString p)]) =
     Inr (Some ([0x7B] @ QuoteJSONString k @ [0x3A] @ QuoteJSONString p @ [0x7D]))"
  by (simp add: JSON_stringify_def)

lemma JSON_parse_stringify_prompt:
  "JSON_parse ([0x7B] @ QuoteJSONString k @ [0x3A] @ QuoteJSONString p @ [0x7D]) =
     Inr (JObject [(k, JString p)])"
proof -
  have "tokenize ([0x7B] @ QuoteJSONString k @ [0x3A] @ QuoteJSONString p @ [0x7D]) =
      Some [LBrace, TString k, Colon, TString p, RBrace]"
    using tokenize_QuoteJSONString [of k "[0x3A] @ QuoteJSONString p @ [0x7D]"]
      tokenize_QuoteJSONString [of p "[0x7D]"]
    by (simp add: is_ws_def)
  then show ?thesis
    by (simp add: JSON_parse_def)
qed

section \<open>What a call does\<close>

text \<open>
  One call of \<open>fetch\<close> sends the request it is given first, and then at most as many
  further requests as it may follow redirects; when the answer to the first request is a
  network error or is no redirect to follow, that request is the only one.
\<close>

lemma http_fetch_log:
  "\<exists>further. snd (http_fetch n net req issued) = issued @ req # further \<and> length further \<le> n"
proof (induction n arbitrary: req issued)
  case 0
  show ?case
    by (simp split: sum.splits option.splits)
next
  case (Suc n)
  show ?case
  proof (cases "net issued req")
    case (Inl msg)
    then show ?thesis by simp
  next
    case (Inr res)
    show ?thesis
    proof (cases "location_URL res")
      case None
      with Inr show ?thesis by simp
    next
      case (Some loc)
      obtain further where
        "snd (http_fetch n net (redirect_request req (status res) loc) (issued @ [req])) =
           (issued @ [req]) @ redirect_request req (status res) loc # further"
        and "length further \<le> n"
        using Suc.IH by blast
      with Inr Some show ?thesis by simp
    qed
  qed
qed

lemma http_fetch_final:
  assumes "case net issued req of Inl msg \<Rightarrow> True | Inr res \<Rightarrow> location_URL res = None"
  shows "http_fetch n net req issued =
     ((case net issued req of Inl msg \<Rightarrow> Inl (NetworkError msg) | Inr res \<Rightarrow> Inr res),
      issued @ [req])"
  using assms by (cases n) (auto split: sum.splits)

lemma fetch_final:
  assumes "case net issued req of Inl msg \<Rightarrow> True | Inr res \<Rightarrow> location_URL res = None"
  shows "fetch net req issued =
     ((case net issued req of Inl msg \<Rightarrow> Inl (NetworkError msg) | Inr res \<Rightarrow> Inr res),
      issued @ [req])"
  unfolding fetch_def using assms by (rule http_fetch_final)

lemma fetch_single_request:
  assumes "snd (fetch net req issued) = issued @ [req]"
  shows "case net issued req of Inl msg \<Rightarrow> True | Inr res \<Rightarrow> location_URL res = None"
proof (cases "net issued req")
  case (Inl msg)
  then show ?thesis by simp
next
  case (Inr res)
  show ?thesis
  proof (cases "location_URL res")
    case None
    with Inr show ?thesis by simp
  next
    case (Some loc)
    obtain further where
      "snd (http_fetch 19 net (redirect_request req (status res) loc) (issued @ [req])) =
         (issued @ [req]) @ redirect_request req (status res) loc # further"
      using http_fetch_log by blast
    with Inr Some have "snd (fetch net req issued) =
        issued @ [req] @ redirect_request req (status res) loc # further"
      by (simp add: fetch_def numeral_eq_Suc)
    with assms show ?thesis by simp
  qed
qed

text \<open>
  A call of \<open>askAgent\<close> is one call of \<open>fetch\<close> on the request built from the prompt,
  followed by \<open>res.json()\<close>. The first request a call sends is that request, so a
  hypothesis \<open>snd (askAgent net p issued) = issued @ req # further\<close> only gives it the
  name \<open>req\<close>.
\<close>

lemma askAgent_unfold:
  fixes p :: jsstring
  defines "req \<equiv>
     \<lparr>url = ''http://localhost:8001/agent'', method = ''POST'',
      headers = [(''Content-Type'', ''application/json'')],
      body = Some ([0x7B] @ QuoteJSONString (lit ''prompt'') @ [0x3A] @ QuoteJSONString p @ [0x7D])\<rparr>"
  shows "askAgent net p issued =
     (case fetch net req issued of
        (Inl e, issued') \<Rightarrow> (Inl e, issued')
      | (Inr res, issued') \<Rightarrow> (Response_json res, issued'))"
  by (simp add: askAgent_def JSON_stringify_prompt req_def)

lemma snd_askAgent:
  fixes p :: jsstring
  defines "req \<equiv>
     \<lparr>url = ''http://localhost:8001/agent'', method = ''POST'',
      headers = [(''Content-Type'', ''application/json'')],
      body = Some ([0x7B] @ QuoteJSONString (lit ''prompt'') @ [0x3A] @ QuoteJSONString p @ [0x7D])\<rparr>"
  shows "snd (askAgent net p issued) = snd (fetch net req issued)"
  unfolding req_def by (simp add: askAgent_unfold split: prod.splits sum.splits)

lemma askAgent_first_request:
  assumes "snd (askAgent net p issued) = issued @ req # further"
  shows "req =
     \<lparr>url = ''http://localhost:8001/agent'', method = ''POST'',
      headers = [(''Content-Type'', ''application/json'')],
      body = Some ([0x7B] @ QuoteJSONString (lit ''prompt'') @ [0x3A] @ QuoteJSONString p @ [0x7D])\<rparr>"
proof -
  let ?r = "\<lparr>url = ''http://localhost:8001/agent'', method = ''POST'',
      headers = [(''Content-Type'', ''application/json'')],
      body = Some ([0x7B] @ QuoteJSONString (lit ''prompt'') @ [0x3A] @ QuoteJSONString p @ [0x7D])\<rparr>"
  obtain further' where "snd (http_fetch 20 net ?r issued) = issued @ ?r # further'"
    using http_fetch_log [of 20 net ?r issued] by blast
  then have "snd (askAgent net p issued) = issued @ ?r # further'"
    by (simp add: snd_askAgent fetch_def)
  with assms show ?thesis by simp
qed

lemma askAgent_named:
  assumes "snd (askAgent net p issued) = issued @ req # further"
  shows "askAgent net p issued =
     (case fetch net req issued of
        (Inl e, issued') \<Rightarrow> (Inl e, issued')
      | (Inr res, issued') \<Rightarrow> (Response_json res, issued'))"
  unfolding askAgent_first_request [OF assms] by (rule askAgent_unfold)


lemma snd_askAgent_named:
  assumes "snd (askAgent net p issued) = issued @ req # further"
  shows "snd (askAgent net p issued) = snd (fetch net req issued)"
  by (simp add: askAgent_named [OF assms] split: prod.splits sum.splits)

text \<open>
  A call that sent one request only: the network answered it with an error or with a
  response that is no redirect to follow, and the call ends on that answer.
\<close>

lemma askAgent_single_request:
  assumes "snd (askAgent net p issued) = issued @ [req]"
  shows "askAgent net p issued =
     ((case net issued req of
         Inl msg \<Rightarrow> Inl (NetworkError msg)
       | Inr res \<Rightarrow> Response_json res),
      issued @ [req])"
proof -
  have n: "snd (askAgent net p issued) = issued @ req # []"
    using assms by simp
  have "snd (fetch net req issued) = issued @ [req]"
    using snd_askAgent_named [OF n] assms by simp
  then have "fetch net req issued =
     ((case net issued req of Inl msg \<Rightarrow> Inl (NetworkError msg) | Inr res \<Rightarrow> Inr res),
      issued @ [req])"
    by (intro fetch_final fetch_single_request)
  then show ?thesis
    by (simp add: askAgent_named [OF n] split: sum.splits)
qed





lemma stringify_hi:
  \<open>JSON_stringify (VObject [(lit ''prompt'', VString (lit ''hi''))]) =
     Inr (Some (lit ''{"prompt":"hi"}''))\<close>
  by (simp add: JSON_stringify_def QuoteJSONString_def quote_code_point_def
        UTF16EncodeCodePoint_def is_leading_surrogate_def lit_def)

lemma stringify_empty:
  \<open>JSON_stringify (VObject [(lit ''prompt'', VString [])]) =
     Inr (Some (lit ''{"prompt":""}''))\<close>
  by (simp add: JSON_stringify_def QuoteJSONString_def quote_code_point_def
        UTF16EncodeCodePoint_def is_leading_surrogate_def lit_def)

lemma askAgent_hi:
  \<open>askAgent net (lit ''hi'') issued =
     (case fetch net
             \<lparr>url = ''http://localhost:8001/agent'', method = ''POST'',
              headers = [(''Content-Type'', ''application/json'')],
              body = Some (lit ''{"prompt":"hi"}'')\<rparr> issued of
        (Inl e, issued') \<Rightarrow> (Inl e, issued')
      | (Inr res, issued') \<Rightarrow> (Response_json res, issued'))\<close>
  by (simp add: askAgent_def stringify_hi)

lemma askAgent_empty:
  \<open>askAgent net [] issued =
     (case fetch net
             \<lparr>url = ''http://localhost:8001/agent'', method = ''POST'',
              headers = [(''Content-Type'', ''application/json'')],
              body = Some (lit ''{"prompt":""}'')\<rparr> issued of
        (Inl e, issued') \<Rightarrow> (Inl e, issued')
      | (Inr res, issued') \<Rightarrow> (Response_json res, issued'))\<close>
  by (simp add: askAgent_def stringify_empty)

lemma fetch_ok_server:
  \<open>fetch ok_server req issued =
     (Inr \<lparr>status = 200, response_headers = [], response_body = Inr (lit ''{"ok": true}'')\<rparr>,
      issued @ [req])\<close>
  by (simp add: fetch_final ok_server_def location_URL_def is_redirect_status_def)

lemma fetch_redirecting_server:
  \<open>fetch redirecting_server
      \<lparr>url = ''http://localhost:8001/agent'', method = ''POST'', headers = hs, body = b\<rparr> [] =
     (Inr \<lparr>status = 200, response_headers = [], response_body = Inr (lit ''{"ok": true}'')\<rparr>,
      [\<lparr>url = ''http://localhost:8001/agent'', method = ''POST'', headers = hs, body = b\<rparr>,
       \<lparr>url = ''http://localhost:8001/agent2'', method = ''POST'', headers = hs, body = b\<rparr>])\<close>
  by (simp add: fetch_def numeral_eq_Suc redirecting_server_def ok_server_def location_URL_def
        is_redirect_status_def same_header_name_def ascii_lower_def redirect_request_def)

text \<open>
  \<open>JSON.stringify\<close> at work: a prompt with a quote, a line feed, a control character,
  an unpaired leading surrogate, a surrogate pair, an unpaired trailing surrogate and a
  backslash; and the two outcomes the source never meets, a BigInt and \<open>undefined\<close>.
\<close>

lemma stringify_escapes_example:
  \<open>JSON_stringify
     (VObject [(lit ''prompt'',
                VString (lit ''a"b'' @ [0x0A, 0x01, 0xD800, 0xD83D, 0xDE00, 0xDC00, 0x5C]))]) =
   Inr (Some (lit ''{"prompt":"a'' @ [0x5C] @ lit ''"b'' @ [0x5C] @ lit ''n'' @ [0x5C] @
              lit ''u0001'' @ [0x5C] @ lit ''ud800'' @ [0xD83D, 0xDE00, 0x5C] @ lit ''udc00'' @
              [0x5C, 0x5C] @ lit ''"}''))\<close>
  by (simp add: JSON_stringify_def QuoteJSONString_def quote_code_point_def UnicodeEscape_def
        hex_digit_def UTF16EncodeCodePoint_def UTF16SurrogatePairToCodePoint_def
        is_leading_surrogate_def is_trailing_surrogate_def lit_def)

lemma stringify_bigint_throws:
  "JSON_stringify (VObject [(lit ''prompt'', VBigInt 1)]) = Inl StringifyError"
  by (simp add: JSON_stringify_def)

lemma stringify_undefined_top: "JSON_stringify VUndefined = Inr None"
  by (simp add: JSON_stringify_def)

text \<open>
  C1, as stated, does not hold. The source passes no \<open>redirect\<close> option, so \<open>fetch\<close>
  follows redirects. When the server answers the POST with a 307 redirect, one call sends
  two POST requests with the same body: the first to \<open>/agent\<close>, the second to the
  location of the redirect.
\<close>

theorem askAgent_exactly_one_post_counterexample:
  \<open>snd (askAgent redirecting_server (lit ''hi'') []) =
     [\<lparr>url = ''http://localhost:8001/agent'', method = ''POST'',
       headers = [(''Content-Type'', ''application/json'')],
       body = Some (lit ''{"prompt":"hi"}'')\<rparr>,
      \<lparr>url = ''http://localhost:8001/agent2'', method = ''POST'',
       headers = [(''Content-Type'', ''application/json'')],
       body = Some (lit ''{"prompt":"hi"}'')\<rparr>]\<close>
  by (simp add: askAgent_hi fetch_redirecting_server)

text \<open>
  C1, amended. For every prompt \<open>p\<close>, whatever the network does and whatever was sent
  before, the requests of a call are those of one call of \<open>fetch\<close>; there is no retry
  and nothing else is sent. The first of them is a POST whose body is \<open>JSON.stringify\<close>
  of the one-key object \<open>{ prompt: p }\<close>, and \<open>JSON.parse\<close> of that body is the object
  \<open>{ prompt: p }\<close> again; the prompt is any sequence of code units: empty, with quotes,
  backslashes and control characters, with unpaired surrogates. Further requests are
  those of followed redirects, at most 20; when the answer to the first request is a
  network error or is not a redirect with a location, that request is the only one.
\<close>

theorem askAgent_one_fetch_with_prompt_payload:
  "\<exists>req further b.
     snd (askAgent net p issued) = issued @ req # further \<and>
     snd (askAgent net p issued) = snd (fetch net req issued) \<and>
     length further \<le> 20 \<and>
     ((case net issued req of Inl msg \<Rightarrow> True | Inr res \<Rightarrow> location_URL res = None) \<longrightarrow>
        further = []) \<and>
     method req = ''POST'' \<and> body req = Some b \<and>
     JSON_stringify (VObject [(lit ''prompt'', VString p)]) = Inr (Some b) \<and>
     JSON_parse b = Inr (JObject [(lit ''prompt'', JString p)])"
proof -
  let ?b = "[0x7B] @ QuoteJSONString (lit ''prompt'') @ [0x3A] @ QuoteJSONString p @ [0x7D]"
  let ?r = "\<lparr>url = ''http://localhost:8001/agent'', method = ''POST'',
      headers = [(''Content-Type'', ''application/json'')], body = Some ?b\<rparr>"
  have s: "snd (askAgent net p issued) = snd (fetch net ?r issued)"
    by (rule snd_askAgent)
  obtain further where f: "snd (fetch net ?r issued) = issued @ ?r # further"
    and l: "length further \<le> 20"
    using http_fetch_log [of 20 net ?r issued] unfolding fetch_def by blast
  have e: "further = []"
    if "case net issued ?r of Inl msg \<Rightarrow> True | Inr res \<Rightarrow> location_URL res = None"
    using fetch_final [of net issued ?r] that f by simp
  show ?thesis
  proof (intro exI conjI)
    show "snd (askAgent net p issued) = issued @ ?r # further"
      using s f by simp
    show "snd (askAgent net p issued) = snd (fetch net ?r issued)"
      by (rule s)
    show "length further \<le> 20"
      by (rule l)
    show "(case net issued ?r of Inl msg \<Rightarrow> True | Inr res \<Rightarrow> location_URL res = None)
        \<longrightarrow> further = []"
      using e by blast
    show "method ?r = ''POST''" and "body ?r = Some ?b"
      by simp_all
    show "JSON_stringify (VObject [(lit ''prompt'', VString p)]) = Inr (Some ?b)"
      by (rule JSON_stringify_prompt)
    show "JSON_parse ?b = Inr (JObject [(lit ''prompt'', JString p)])"
      by (rule JSON_parse_stringify_prompt)
  qed
qed

theorem askAgent_one_fetch_with_prompt_payload_witness:
  \<open>snd (askAgent ok_server (lit ''hi'') []) =
     [\<lparr>url = ''http://localhost:8001/agent'', method = ''POST'',
       headers = [(''Content-Type'', ''application/json'')],
       body = Some (lit ''{"prompt":"hi"}'')\<rparr>]\<close>
proof -
  obtain req further b where
    n: "snd (askAgent ok_server (lit ''hi'') []) = [] @ req # further"
    and f: "(case ok_server [] req of Inl msg \<Rightarrow> True | Inr res \<Rightarrow> location_URL res = None)
       \<longrightarrow> further = []"
    using askAgent_one_fetch_with_prompt_payload [of ok_server "lit ''hi''" "[]"] by blast
  have "case ok_server [] req of Inl msg \<Rightarrow> True | Inr res \<Rightarrow> location_URL res = None"
    by (simp add: ok_server_def location_URL_def is_redirect_status_def)
  with f have "further = []"
    by simp
  with n show ?thesis
    by (simp add: askAgent_hi fetch_ok_server)
qed






text \<open>
  C5. When the network cannot complete the request (\<open>fetch\<close> rejects, or the reading
  of the response body is interrupted), the call fails with that very network error and
  returns no value; it has sent the requests of its one call of \<open>fetch\<close> and nothing
  after the failure. When the answer to the first request is a network error or is not a
  redirect with a location, that is the one request.
\<close>

theorem askAgent_propagates_transport_error:
  assumes "snd (askAgent net p issued) = issued @ req # further"
    and "fst (fetch net req issued) = Inl (NetworkError msg) \<or>
         (\<exists>res. fst (fetch net req issued) = Inr res \<and> response_body res = Inl msg)"
  shows "askAgent net p issued = (Inl (NetworkError msg), snd (fetch net req issued)) \<and>
    ((case net issued req of Inl m \<Rightarrow> True | Inr res \<Rightarrow> location_URL res = None) \<longrightarrow>
       askAgent net p issued = (Inl (NetworkError msg), issued @ [req]))"
proof -
  have a: "askAgent net p issued = (Inl (NetworkError msg), snd (fetch net req issued))"
    using assms(2)
    by (auto simp add: askAgent_named [OF assms(1)] Response_json_def split: prod.splits)
  have "snd (fetch net req issued) = issued @ [req]"
    if "case net issued req of Inl m \<Rightarrow> True | Inr res \<Rightarrow> location_URL res = None"
    using fetch_final [of net issued req] that by simp
  with a show ?thesis
    by simp
qed

theorem askAgent_propagates_transport_error_witness:
  \<open>askAgent (\<lambda>issued req. Inl ''connection refused'') (lit ''hi'') [] =
     (Inl (NetworkError ''connection refused''),
      [\<lparr>url = ''http://localhost:8001/agent'', method = ''POST'',
        headers = [(''Content-Type'', ''application/json'')],
        body = Some (lit ''{"prompt":"hi"}'')\<rparr>]) \<and>
   askAgent (\<lambda>issued req. Inr \<lparr>status = 200, response_headers = [],
                                  response_body = Inl ''connection reset''\<rparr>) (lit ''hi'') [] =
     (Inl (NetworkError ''connection reset''),
      [\<lparr>url = ''http://localhost:8001/agent'', method = ''POST'',
        headers = [(''Content-Type'', ''application/json'')],
        body = Some (lit ''{"prompt":"hi"}'')\<rparr>])\<close>
proof -
  let ?req = \<open>\<lparr>url = ''http://localhost:8001/agent'', method = ''POST'',
        headers = [(''Content-Type'', ''application/json'')],
        body = Some (lit ''{"prompt":"hi"}'')\<rparr>\<close>
  let ?r2 = "\<lparr>status = 200, response_headers = [],
    response_body = Inl ''connection reset''\<rparr> :: response"
  let ?n1 = "\<lambda>(issued :: request list) (req :: request).
    Inl ''connection refused'' :: string + response"
  let ?n2 = "\<lambda>(issued :: request list) (req :: request). Inr ?r2 :: string + response"
  have f1: "fetch ?n1 ?req [] = (Inl (NetworkError ''connection refused''), [] @ [?req])"
    using fetch_final [of ?n1 "[]" ?req] by simp
  have f2: "fetch ?n2 ?req [] = (Inr ?r2, [] @ [?req])"
    using fetch_final [of ?n2 "[]" ?req]
    by (simp add: location_URL_def is_redirect_status_def)
  have a: "snd (askAgent ?n1 (lit ''hi'') []) = [] @ ?req # []"
    by (simp add: askAgent_hi f1)
  have b: "snd (askAgent ?n2 (lit ''hi'') []) = [] @ ?req # []"
    by (simp add: askAgent_hi f2)
  have a': "fst (fetch ?n1 ?req []) = Inl (NetworkError ''connection refused'') \<or>
      (\<exists>res. fst (fetch ?n1 ?req []) = Inr res \<and> response_body res = Inl ''connection refused'')"
    by (simp add: f1)
  have b': "fst (fetch ?n2 ?req []) = Inl (NetworkError ''connection reset'') \<or>
      (\<exists>res. fst (fetch ?n2 ?req []) = Inr res \<and> response_body res = Inl ''connection reset'')"
    by (simp add: f2)
  show ?thesis
    using askAgent_propagates_transport_error [OF a a']
      askAgent_propagates_transport_error [OF b b']
    by (simp add: f1 f2)
qed



text \<open>
  C8. The request a call builds is determined by the prompt alone. For any two calls,
  under any two networks and histories, the requests handed to \<open>fetch\<close> have the same
  URL, method and headers, so they differ at most in the body; and when the prompts are
  equal the requests are equal.
\<close>

theorem askAgent_request_depends_on_prompt_only:
  assumes "snd (askAgent net1 p1 issued1) = issued1 @ r1 # further1"
    and "snd (askAgent net2 p2 issued2) = issued2 @ r2 # further2"
  shows "url r1 = url r2 \<and> method r1 = method r2 \<and> headers r1 = headers r2 \<and>
         (p1 = p2 \<longrightarrow> r1 = r2)"
  by (simp add: askAgent_first_request [OF assms(1)] askAgent_first_request [OF assms(2)])

theorem askAgent_request_depends_on_prompt_only_witness:
  \<open>headers \<lparr>url = ''http://localhost:8001/agent'', method = ''POST'',
         headers = [(''Content-Type'', ''application/json'')],
         body = Some (lit ''{"prompt":"hi"}'')\<rparr> =
   headers \<lparr>url = ''http://localhost:8001/agent'', method = ''POST'',
         headers = [(''Content-Type'', ''application/json'')],
         body = Some (lit ''{"prompt":""}'')\<rparr> \<and>
   hd (snd (askAgent (\<lambda>issued req. Inl ''down'') (lit ''hi'') [])) =
   hd (snd (askAgent redirecting_server (lit ''hi'') []))\<close>
proof -
  let ?hi = \<open>\<lparr>url = ''http://localhost:8001/agent'', method = ''POST'',
        headers = [(''Content-Type'', ''application/json'')],
        body = Some (lit ''{"prompt":"hi"}'')\<rparr>\<close>
  let ?em = \<open>\<lparr>url = ''http://localhost:8001/agent'', method = ''POST'',
        headers = [(''Content-Type'', ''application/json'')],
        body = Some (lit ''{"prompt":""}'')\<rparr>\<close>
  let ?n1 = "\<lambda>(issued :: request list) (req :: request). Inl ''down'' :: string + response"
  have f1: "fetch ?n1 ?hi [] = (Inl (NetworkError ''down''), [] @ [?hi])"
    using fetch_final [of ?n1 "[]" ?hi] by simp
  have a: "snd (askAgent ?n1 (lit ''hi'') []) = [] @ ?hi # []"
    by (simp add: askAgent_hi f1)
  have b: "snd (askAgent ok_server [] [?hi]) = [?hi] @ ?em # []"
    by (simp add: askAgent_empty fetch_ok_server)
  have c: "snd (askAgent redirecting_server (lit ''hi'') []) =
      [] @ ?hi # [?hi\<lparr>url := ''http://localhost:8001/agent2''\<rparr>]"
    by (simp add: askAgent_hi fetch_redirecting_server)
  show ?thesis
    using askAgent_request_depends_on_prompt_only [OF a b]
      askAgent_request_depends_on_prompt_only [OF a c] a c
    by simp
qed



text \<open>
  C10. Building the request cannot fail: for every prompt \<open>JSON.stringify\<close> of
  \<open>{ prompt }\<close> returns a string, so the request is always sent, and the outcome of
  the call is the failure of \<open>fetch\<close> or else the outcome of \<open>res.json()\<close>
  (a network error while reading, a \<open>SyntaxError\<close>, or the value).
\<close>

theorem askAgent_request_construction_total:
  "(\<exists>b. JSON_stringify (VObject [(lit ''prompt'', VString p)]) = Inr (Some b)) \<and>
   (\<exists>req further.
      snd (askAgent net p issued) = issued @ req # further \<and>
      askAgent net p issued =
        (case fetch net req issued of
           (Inl e, issued') \<Rightarrow> (Inl e, issued')
         | (Inr res, issued') \<Rightarrow> (Response_json res, issued')))"
proof
  show "\<exists>b. JSON_stringify (VObject [(lit ''prompt'', VString p)]) = Inr (Some b)"
    by (simp add: JSON_stringify_prompt)
  let ?r = "\<lparr>url = ''http://localhost:8001/agent'', method = ''POST'',
      headers = [(''Content-Type'', ''application/json'')],
      body = Some ([0x7B] @ QuoteJSONString (lit ''prompt'') @ [0x3A] @ QuoteJSONString p
        @ [0x7D])\<rparr>"
  obtain further where f: "snd (fetch net ?r issued) = issued @ ?r # further"
    using http_fetch_log [of 20 net ?r issued] unfolding fetch_def by blast
  have n: "snd (askAgent net p issued) = issued @ ?r # further"
    using f by (simp add: snd_askAgent)
  show "\<exists>req further.
      snd (askAgent net p issued) = issued @ req # further \<and>
      askAgent net p issued =
        (case fetch net req issued of
           (Inl e, issued') \<Rightarrow> (Inl e, issued')
         | (Inr res, issued') \<Rightarrow> (Response_json res, issued'))"
    using n askAgent_named [OF n] by blast
qed

end
